theory Spec2Isabelle
  imports Complex_Main "HOL-Library.Sublist"
begin

section \<open>The rate limiter (class DiscordRateLimiter of main.py)\<close>

text \<open>
  The class keeps its state in attributes; every method takes the state and returns the
  new one. Each call of \<^verbatim>\<open>time.time()\<close> is an argument of the method that makes it.
  Python floats are modelled as real numbers: the arithmetic of the limiter (a subtraction,
  a product with 0.9 or 2.0, \<^verbatim>\<open>max\<close> and \<^verbatim>\<open>min\<close>) is taken exactly.
\<close>

record DiscordRateLimiter =
  message_history :: "real list"
  burst_threshold :: int
  burst_window :: real
  rate_limit :: real
  exponential_delay :: real
  max_delay :: real
  queue_size :: int
  total_processed :: int
  rate_limit_hits :: int
  last_burst_time :: real

text \<open>\<^verbatim>\<open>__init__\<close>\<close>

definition init_rate_limiter :: DiscordRateLimiter where
  "init_rate_limiter =
     \<lparr> message_history = [],
       burst_threshold = 5,
       burst_window = 10,
       rate_limit = 0.5,
       exponential_delay = 1.0,
       max_delay = 30.0,
       queue_size = 0,
       total_processed = 0,
       rate_limit_hits = 0,
       last_burst_time = 0.0 \<rparr>"

text \<open>
  \<^verbatim>\<open>can_send_message\<close>: prune the history, then the burst check (which records the time
  of the burst), then the minimum spacing to the newest entry.
\<close>

definition can_send_message :: "real \<Rightarrow> DiscordRateLimiter \<Rightarrow> bool \<times> DiscordRateLimiter" where
  "can_send_message current_time s =
     (let s1 = s\<lparr>message_history :=
                  filter (\<lambda>t. current_time - t < burst_window s) (message_history s)\<rparr>
      in if burst_threshold s1 \<le> int (length (message_history s1))
         then (False, s1\<lparr>last_burst_time := current_time\<rparr>)
         else if message_history s1 \<noteq> [] \<and>
                 current_time - last (message_history s1) < rate_limit s1
         then (False, s1)
         else (True, s1))"

definition register_message_sent :: "real \<Rightarrow> DiscordRateLimiter \<Rightarrow> DiscordRateLimiter" where
  "register_message_sent current_time s =
     s\<lparr>message_history := message_history s @ [current_time],
       total_processed := total_processed s + 1,
       exponential_delay := max 0.5 (exponential_delay s * 0.9)\<rparr>"

definition register_rate_limit_hit :: "DiscordRateLimiter \<Rightarrow> DiscordRateLimiter" where
  "register_rate_limit_hit s =
     s\<lparr>rate_limit_hits := rate_limit_hits s + 1,
       exponential_delay := min (max_delay s) (exponential_delay s * 2.0)\<rparr>"

definition get_recommended_delay :: "real \<Rightarrow> DiscordRateLimiter \<Rightarrow> real \<times> DiscordRateLimiter" where
  "get_recommended_delay current_time s =
     (case can_send_message current_time s of
        (ok, s1) \<Rightarrow> if \<not> ok then (exponential_delay s1, s1)
                    else (max (rate_limit s1) 0.1, s1))"

text \<open>The dictionary that \<^verbatim>\<open>get_queue_status\<close> returns, one field for each key.\<close>

record queue_status =
  qs_can_send :: bool
  qs_recent_messages :: nat
  qs_burst_threshold :: int
  qs_recommended_delay :: real
  qs_total_processed :: int
  qs_rate_limit_hits :: int
  qs_exponential_delay :: real

text \<open>
  \<^verbatim>\<open>get_queue_status\<close> reads the clock itself (\<open>t0\<close>), then calls \<^verbatim>\<open>can_send_message\<close>
  (which reads it at \<open>t1\<close>) and \<^verbatim>\<open>get_recommended_delay\<close> (at \<open>t2\<close>); the dictionary is
  built in that order, and the three counters are read last.
\<close>

definition get_queue_status ::
  "real \<Rightarrow> real \<Rightarrow> real \<Rightarrow> DiscordRateLimiter \<Rightarrow> queue_status \<times> DiscordRateLimiter" where
  "get_queue_status t0 t1 t2 s =
     (let recent_messages = length (filter (\<lambda>t. t0 - t < burst_window s) (message_history s))
      in case can_send_message t1 s of
           (ok, s1) \<Rightarrow>
             (case get_recommended_delay t2 s1 of
                (d, s2) \<Rightarrow>
                  (\<lparr> qs_can_send = ok,
                     qs_recent_messages = recent_messages,
                     qs_burst_threshold = burst_threshold s1,
                     qs_recommended_delay = d,
                     qs_total_processed = total_processed s2,
                     qs_rate_limit_hits = rate_limit_hits s2,
                     qs_exponential_delay = exponential_delay s2 \<rparr>, s2)))"

text \<open>A call of one of the five methods, with the clock values it reads.\<close>

datatype limiter_call =
    CanSendMessage real
  | RegisterMessageSent real
  | RegisterRateLimitHit
  | GetRecommendedDelay real
  | GetQueueStatus real real real

fun limiter_step :: "DiscordRateLimiter \<Rightarrow> limiter_call \<Rightarrow> DiscordRateLimiter" where
  "limiter_step s (CanSendMessage t) = snd (can_send_message t s)"
| "limiter_step s (RegisterMessageSent t) = register_message_sent t s"
| "limiter_step s RegisterRateLimitHit = register_rate_limit_hit s"
| "limiter_step s (GetRecommendedDelay t) = snd (get_recommended_delay t s)"
| "limiter_step s (GetQueueStatus t0 t1 t2) = snd (get_queue_status t0 t1 t2 s)"

definition limiter_run :: "limiter_call list \<Rightarrow> DiscordRateLimiter" where
  "limiter_run cs = foldl limiter_step init_rate_limiter cs"

section \<open>The dispatch loop and the queue controls (class DiscordAutoSender of main.py)\<close>

text \<open>
  The status line is a value for each message the code writes to \<^verbatim>\<open>status_var\<close>.
\<close>

datatype status_text =
    Idle
  | Sent_msg string
  | Rate_limited_waiting
  | Sent_summary nat real
  | Queue_paused
  | Queue_resumed
  | Queue_cancelled
  | Stopped_sending

text \<open>
  The attributes the loop and the controls read or write. Two lists are added to observe
  the loop: \<open>transmitted\<close> holds the messages that took the sending branch, in order
  (the code only counts them and shows them on the status line), and \<open>slept\<close> holds the
  arguments of \<^verbatim>\<open>time.sleep\<close>, in order.
\<close>

record DiscordAutoSender =
  is_sending :: bool
  queue_paused :: bool
  analytics_sent :: int
  analytics_errors :: int
  rate_limiter :: DiscordRateLimiter
  status_var :: status_text
  transmitted :: "string list"
  slept :: "real list"

definition pause_queue :: "DiscordAutoSender \<Rightarrow> DiscordAutoSender" where
  "pause_queue a = a\<lparr>queue_paused := True, status_var := Queue_paused\<rparr>"

definition resume_queue :: "DiscordAutoSender \<Rightarrow> DiscordAutoSender" where
  "resume_queue a = a\<lparr>queue_paused := False, status_var := Queue_resumed\<rparr>"

definition cancel_queue :: "DiscordAutoSender \<Rightarrow> DiscordAutoSender" where
  "cancel_queue a = a\<lparr>is_sending := False, status_var := Queue_cancelled\<rparr>"

definition stop_sending :: "DiscordAutoSender \<Rightarrow> DiscordAutoSender" where
  "stop_sending a = a\<lparr>is_sending := False, status_var := Stopped_sending\<rparr>"

text \<open>
  The loop runs on a thread of its own while the window's buttons call the controls.
  The only attribute of the window that the loop reads is \<open>is_sending\<close>, once at the top
  of each iteration, so the calls of the controls are placed before that test.
\<close>

datatype gui_event = PauseQueue | ResumeQueue | CancelQueue | StopSending

fun gui_step :: "DiscordAutoSender \<Rightarrow> gui_event \<Rightarrow> DiscordAutoSender" where
  "gui_step a PauseQueue = pause_queue a"
| "gui_step a ResumeQueue = resume_queue a"
| "gui_step a CancelQueue = cancel_queue a"
| "gui_step a StopSending = stop_sending a"

text \<open>
  \<^verbatim>\<open>time.sleep\<close> raises ValueError on a negative argument. A raise ends the thread of
  the loop: the result is then the error with the window as it was left (\<open>Inl\<close>).
\<close>

datatype py_error = ValueError

type_synonym loop_result = "(py_error \<times> DiscordAutoSender) + DiscordAutoSender"

definition py_sleep :: "real \<Rightarrow> DiscordAutoSender \<Rightarrow> loop_result" where
  "py_sleep d a = (if d < 0 then Inl (ValueError, a) else Inr (a\<lparr>slept := slept a @ [d]\<rparr>))"

definition final_state :: "loop_result \<Rightarrow> DiscordAutoSender" where
  "final_state r = (case r of Inl (e, a) \<Rightarrow> a | Inr a \<Rightarrow> a)"

text \<open>
  The body of the \<^verbatim>\<open>for\<close> loop of \<^verbatim>\<open>send_messages\<close> after the test of \<open>is_sending\<close>,
  for the message \<open>msg\<close>. \<open>t1\<close> is the clock read by \<^verbatim>\<open>can_send_message\<close>, \<open>t2\<close> the
  clock read next, by \<^verbatim>\<open>register_message_sent\<close> or by \<^verbatim>\<open>get_recommended_delay\<close>.
\<close>

definition send_iteration ::
  "real \<Rightarrow> real \<Rightarrow> real \<Rightarrow> string \<Rightarrow> DiscordAutoSender \<Rightarrow> loop_result" where
  "send_iteration t1 t2 delay msg a =
     (case can_send_message t1 (rate_limiter a) of
        (ok, rl) \<Rightarrow>
          if ok then
            py_sleep delay
              (a\<lparr>analytics_sent := analytics_sent a + 1,
                 rate_limiter := register_message_sent t2 rl,
                 status_var := Sent_msg msg,
                 transmitted := transmitted a @ [msg]\<rparr>)
          else
            (case get_recommended_delay t2 (register_rate_limit_hit rl) of
               (d, rl') \<Rightarrow>
                 (case py_sleep d
                         (a\<lparr>analytics_errors := analytics_errors a + 1,
                            rate_limiter := rl',
                            status_var := Rate_limited_waiting\<rparr>) of
                    Inl e \<Rightarrow> Inl e
                  | Inr a' \<Rightarrow> py_sleep delay a')))"

text \<open>
  The \<^verbatim>\<open>for\<close> loop over the messages still to visit. \<open>env i\<close> gives, for iteration \<open>i\<close>,
  the controls called since the last test and the two clock readings.
\<close>

fun send_messages_from ::
  "(nat \<Rightarrow> gui_event list \<times> real \<times> real) \<Rightarrow> nat \<Rightarrow> string list \<Rightarrow> real
     \<Rightarrow> DiscordAutoSender \<Rightarrow> loop_result" where
  "send_messages_from env i [] delay a = Inr a"
| "send_messages_from env i (msg # rest) delay a =
     (case env i of
        (evs, t1, t2) \<Rightarrow>
          (let a1 = foldl gui_step a evs
           in if \<not> is_sending a1 then Inr a1
              else (case send_iteration t1 t2 delay msg a1 of
                      Inl e \<Rightarrow> Inl e
                    | Inr a2 \<Rightarrow> send_messages_from env (Suc i) rest delay a2)))"

definition send_messages ::
  "(nat \<Rightarrow> gui_event list \<times> real \<times> real) \<Rightarrow> string list \<Rightarrow> real
     \<Rightarrow> DiscordAutoSender \<Rightarrow> loop_result" where
  "send_messages env messages delay a =
     (case send_messages_from env 0 messages delay a of
        Inl e \<Rightarrow> Inl e
      | Inr a' \<Rightarrow>
          Inr (a'\<lparr>is_sending := False, status_var := Sent_summary (length messages) delay\<rparr>))"

text \<open>The window after \<^verbatim>\<open>__init__\<close> and \<^verbatim>\<open>start_sending\<close>: the loop is about to run.\<close>

definition started_sender :: DiscordAutoSender where
  "started_sender =
     \<lparr> is_sending = True,
       queue_paused = False,
       analytics_sent = 0,
       analytics_errors = 0,
       rate_limiter = init_rate_limiter,
       status_var = Idle,
       transmitted = [],
       slept = [] \<rparr>"

text \<open>An environment in which no control is called.\<close>

definition quiet_env :: "(nat \<Rightarrow> real) \<Rightarrow> nat \<Rightarrow> gui_event list \<times> real \<times> real" where
  "quiet_env clock i = ([], clock i, clock i)"

text \<open>The environment with the calls of \<^verbatim>\<open>pause_queue\<close> and \<^verbatim>\<open>resume_queue\<close> removed.\<close>

definition is_pause_event :: "gui_event \<Rightarrow> bool" where
  "is_pause_event e = (case e of PauseQueue \<Rightarrow> True | ResumeQueue \<Rightarrow> True | _ \<Rightarrow> False)"

definition without_pause ::
  "(nat \<Rightarrow> gui_event list \<times> real \<times> real) \<Rightarrow> nat \<Rightarrow> gui_event list \<times> real \<times> real" where
  "without_pause env i =
     (case env i of (evs, t1, t2) \<Rightarrow> (filter (\<lambda>e. \<not> is_pause_event e) evs, t1, t2))"

text \<open>What the loop did and left, apart from the pause flag and the status line.\<close>

definition dispatch_view ::
  "DiscordAutoSender \<Rightarrow> bool \<times> int \<times> int \<times> DiscordRateLimiter \<times> string list \<times> real list" where
  "dispatch_view a =
     (is_sending a, analytics_sent a, analytics_errors a, rate_limiter a, transmitted a, slept a)"

definition result_view ::
  "loop_result \<Rightarrow> bool \<times> bool \<times> int \<times> int \<times> DiscordRateLimiter \<times> string list \<times> real list" where
  "result_view r = (isl r, dispatch_view (final_state r))"

text \<open>
  The configuration is never written after \<^verbatim>\<open>__init__\<close>, and the backoff delay stays
  between 0.5 and 30 whatever methods are called.
\<close>

definition limiter_inv :: "DiscordRateLimiter \<Rightarrow> bool" where
  "limiter_inv s =
     (rate_limit s = 0.5 \<and> max_delay s = 30 \<and> burst_threshold s = 5 \<and> burst_window s = 10
      \<and> 0.5 \<le> exponential_delay s \<and> exponential_delay s \<le> 30)"

section \<open>The retrying transmitter (send_message_advanced of heal_md_enhanced_bridge.py and python/main/main.py)\<close>

text \<open>
  The settings dictionary, one optional field for each key that the function looks up with
  \<^verbatim>\<open>settings.get(key, default)\<close>.
\<close>

record settings =
  retry_attempts :: "int option"
  typing_speed :: "real option"
  random_delay :: "bool option"
  min_delay :: "real option"
  max_delay_setting :: "real option"
  mistake_simulation :: "bool option"
  mistake_rate :: "real option"

definition max_attempts_of :: "settings \<Rightarrow> int" where
  "max_attempts_of st = (case retry_attempts st of None \<Rightarrow> 3 | Some v \<Rightarrow> v)"

definition typing_speed_of :: "settings \<Rightarrow> real" where
  "typing_speed_of st = (case typing_speed st of None \<Rightarrow> 0.01 | Some v \<Rightarrow> v)"

definition random_delay_of :: "settings \<Rightarrow> bool" where
  "random_delay_of st = (case random_delay st of None \<Rightarrow> False | Some v \<Rightarrow> v)"

definition min_delay_of :: "settings \<Rightarrow> real" where
  "min_delay_of st = (case min_delay st of None \<Rightarrow> 0.01 | Some v \<Rightarrow> v)"

definition max_delay_of :: "settings \<Rightarrow> real" where
  "max_delay_of st = (case max_delay_setting st of None \<Rightarrow> 0.05 | Some v \<Rightarrow> v)"

definition mistake_sim_of :: "settings \<Rightarrow> bool" where
  "mistake_sim_of st = (case mistake_simulation st of None \<Rightarrow> False | Some v \<Rightarrow> v)"

definition mistake_rate_of :: "settings \<Rightarrow> real" where
  "mistake_rate_of st = (case mistake_rate st of None \<Rightarrow> 0.01 | Some v \<Rightarrow> v)"

text \<open>
  What the function does to the outside, in order: the result of each call of
  \<^verbatim>\<open>focus_discord_window\<close> and the entry that this function writes to the error log when
  it catches an exception of its own, the keys written and pressed, the sleeps, the entries
  that the handler of \<^verbatim>\<open>send_message_advanced\<close> writes to the error log with the number
  of the attempt, and the error dialog with the number it shows. \<open>Attempt a\<close> marks the
  beginning of the iteration of the \<^verbatim>\<open>for\<close> loop that binds \<^verbatim>\<open>attempt\<close> to \<open>a\<close>.
\<close>

datatype io_event =
    Attempt int
  | FocusWindow bool
  | LogFocusError
  | KeyWrite char
  | KeyPress string
  | Sleep real
  | LogError int
  | ErrorDialog int

text \<open>
  What the window library does when \<^verbatim>\<open>focus_discord_window\<close> asks for the window: a
  window is found and activated, no window is found, or the import, the search or the
  activation raises.
\<close>

datatype focus_answer = Activated | Not_found | Focus_raised

text \<open>
  The collaborators during one attempt: the window library, whether the \<open>k\<close>-th use of
  the keyboard module in the attempt raises (a failing \<^verbatim>\<open>import keyboard\<close> is a failure of
  the use that follows it), and the random draws for the character at position \<open>i\<close>:
  \<^verbatim>\<open>random.random()\<close> for the mistake, \<^verbatim>\<open>random.choice\<close> for the wrong letter, and the
  \<^verbatim>\<open>random.random()\<close> inside \<^verbatim>\<open>random.uniform\<close>.
\<close>

record collaborator =
  focus_result :: focus_answer
  kb_raises :: "nat \<Rightarrow> bool"
  mistake_draw :: "nat \<Rightarrow> real"
  letter_draw :: "nat \<Rightarrow> char"
  delay_draw :: "nat \<Rightarrow> real"

text \<open>
  \<^verbatim>\<open>focus_discord_window\<close> of heal_md_enhanced_bridge.py: True when a window was
  activated, False when none was found; an exception is caught, written to the error log
  and answered with False.
\<close>

definition focus_discord_window :: "focus_answer \<Rightarrow> io_event list \<times> bool" where
  "focus_discord_window w =
     (case w of
        Activated \<Rightarrow> ([FocusWindow True], True)
      | Not_found \<Rightarrow> ([FocusWindow False], False)
      | Focus_raised \<Rightarrow> ([LogFocusError, FocusWindow False], False))"

text \<open>
  The two files hold the same text of \<^verbatim>\<open>send_message_advanced\<close>. heal_md_enhanced_bridge.py
  defines \<^verbatim>\<open>focus_discord_window\<close>; python/main/main.py does not (its definition was
  removed, the call was left), so there the call raises NameError inside the \<^verbatim>\<open>try\<close>
  block.
\<close>

datatype source_file = Bridge | Python_main

text \<open>
  A step inside the \<^verbatim>\<open>try\<close> block gives the events it produced and whether it returned
  (True) or raised (False). \<^verbatim>\<open>time.sleep\<close> raises ValueError on a negative argument.
\<close>

definition kb_op :: "collaborator \<Rightarrow> nat \<Rightarrow> io_event \<Rightarrow> io_event list \<times> bool" where
  "kb_op c k ev = (if kb_raises c k then ([], False) else ([ev], True))"

definition sleep_op :: "real \<Rightarrow> io_event list \<times> bool" where
  "sleep_op d = (if d < 0 then ([], False) else ([Sleep d], True))"

definition and_then :: "io_event list \<times> bool \<Rightarrow> io_event list \<times> bool \<Rightarrow> io_event list \<times> bool" where
  "and_then p q = (if snd p then (fst p @ fst q, snd q) else p)"

definition pace :: "collaborator \<Rightarrow> settings \<Rightarrow> nat \<Rightarrow> real" where
  "pace c st i =
     (if random_delay_of st
      then min_delay_of st + (max_delay_of st - min_delay_of st) * delay_draw c i
      else typing_speed_of st)"

text \<open>
  The loop over the characters and the final \<^verbatim>\<open>enter\<close>; \<open>i\<close> is the position of the
  character, \<open>k\<close> counts the uses of the keyboard in this attempt.
\<close>

fun type_chars :: "collaborator \<Rightarrow> settings \<Rightarrow> nat \<Rightarrow> nat \<Rightarrow> string \<Rightarrow> io_event list \<times> bool" where
  "type_chars c st i k [] = kb_op c k (KeyPress ''enter'')"
| "type_chars c st i k (ch # rest) =
     (if mistake_sim_of st \<and> mistake_draw c i < mistake_rate_of st
      then and_then (kb_op c k (KeyWrite (letter_draw c i)))
          (and_then (sleep_op (typing_speed_of st))
          (and_then (kb_op c (k + 1) (KeyPress ''backspace''))
          (and_then (kb_op c (k + 2) (KeyWrite ch))
          (and_then (sleep_op (pace c st i))
            (type_chars c st (Suc i) (k + 3) rest)))))
      else and_then (kb_op c k (KeyWrite ch))
          (and_then (sleep_op (pace c st i))
            (type_chars c st (Suc i) (k + 1) rest)))"

text \<open>
  The \<^verbatim>\<open>for attempt in range(1, max_attempts + 1)\<close> loop over the attempts still to make;
  \<open>env a\<close> is what the collaborators do during attempt \<open>a\<close>. Where
  \<^verbatim>\<open>focus_discord_window\<close> is not defined, the NameError goes to the handler. Where it is,
  its answer False is the \<^verbatim>\<open>continue\<close>. An exception of the typing goes to the handler:
  it is logged and followed by \<^verbatim>\<open>sleep(1)\<close>. After the last attempt comes the error
  dialog and False.
\<close>

fun attempt_loop ::
  "source_file \<Rightarrow> (int \<Rightarrow> collaborator) \<Rightarrow> settings \<Rightarrow> string \<Rightarrow> int list
     \<Rightarrow> bool \<times> io_event list" where
  "attempt_loop src env st message [] = (False, [ErrorDialog (max_attempts_of st)])"
| "attempt_loop src env st message (a # rest) =
     (case src of
        Python_main \<Rightarrow>
          (case attempt_loop src env st message rest of
             (r, tr) \<Rightarrow> (r, Attempt a # [LogError a, Sleep 1] @ tr))
      | Bridge \<Rightarrow>
          (case focus_discord_window (focus_result (env a)) of
             (fev, focused) \<Rightarrow>
               if \<not> focused
               then (case attempt_loop src env st message rest of
                       (r, tr) \<Rightarrow> (r, Attempt a # fev @ tr))
               else (case type_chars (env a) st 0 0 message of
                       (evs, ok) \<Rightarrow>
                         if ok then (True, Attempt a # fev @ evs)
                         else (case attempt_loop src env st message rest of
                                 (r, tr) \<Rightarrow>
                                   (r, Attempt a # fev @ evs @ [LogError a, Sleep 1] @ tr)))))"

definition send_message_advanced ::
  "source_file \<Rightarrow> (int \<Rightarrow> collaborator) \<Rightarrow> string \<Rightarrow> settings \<Rightarrow> bool \<times> io_event list" where
  "send_message_advanced src env message st =
     attempt_loop src env st message [1 .. max_attempts_of st]"

text \<open>The attempts made are the iterations of the loop that were begun.\<close>

definition is_attempt :: "io_event \<Rightarrow> bool" where
  "is_attempt e = (case e of Attempt a \<Rightarrow> True | _ \<Rightarrow> False)"

definition attempts :: "io_event list \<Rightarrow> nat" where
  "attempts tr = length (filter is_attempt tr)"

text \<open>The window library lets \<^verbatim>\<open>focus_discord_window\<close> answer True.\<close>

definition focus_ok :: "collaborator \<Rightarrow> bool" where
  "focus_ok c = snd (focus_discord_window (focus_result c))"

text \<open>
  The attempt succeeds: \<^verbatim>\<open>focus_discord_window\<close> is defined and answers True, and the
  typing does not raise.
\<close>

definition attempt_succeeds :: "source_file \<Rightarrow> collaborator \<Rightarrow> settings \<Rightarrow> string \<Rightarrow> bool" where
  "attempt_succeeds src c st message =
     (src = Bridge \<and> focus_ok c \<and> snd (type_chars c st 0 0 message))"

text \<open>
  The sleeps of a call and the entries of the handler in the error log, in order: the
  pacing of the typing and the pauses between attempts.
\<close>

definition is_pause_or_log :: "io_event \<Rightarrow> bool" where
  "is_pause_or_log e = (case e of Sleep d \<Rightarrow> True | LogError a \<Rightarrow> True | _ \<Rightarrow> False)"

definition pauses_and_logs :: "io_event list \<Rightarrow> io_event list" where
  "pauses_and_logs tr = filter is_pause_or_log tr"

text \<open>The settings with no key set, and two collaborators for the examples.\<close>

definition default_settings :: settings where
  "default_settings =
     \<lparr> retry_attempts = None, typing_speed = None, random_delay = None, min_delay = None,
       max_delay_setting = None, mistake_simulation = None, mistake_rate = None \<rparr>"

definition no_window :: collaborator where
  "no_window =
     \<lparr> focus_result = Not_found, kb_raises = (\<lambda>k. False), mistake_draw = (\<lambda>i. 0),
       letter_draw = (\<lambda>i. CHR ''a''), delay_draw = (\<lambda>i. 0) \<rparr>"

definition broken_keyboard :: collaborator where
  "broken_keyboard =
     \<lparr> focus_result = Activated, kb_raises = (\<lambda>k. k = 1), mistake_draw = (\<lambda>i. 0),
       letter_draw = (\<lambda>i. CHR ''a''), delay_draw = (\<lambda>i. 0) \<rparr>"

text \<open>No window at any attempt; at the second one the window library raises.\<close>

definition never_window :: "int \<Rightarrow> collaborator" where
  "never_window a = (if a = 2 then no_window\<lparr>focus_result := Focus_raised\<rparr> else no_window)"

section \<open>Strings of the text widgets\<close>

text \<open>
  Strings are lists of ASCII characters. \<^verbatim>\<open>str.strip()\<close> removes the white space of both
  ends; \<^verbatim>\<open>str.splitlines()\<close> cuts at the line boundaries, a carriage return followed by
  a line feed being one boundary, and gives no empty last line.
\<close>

definition is_space :: "char \<Rightarrow> bool" where
  "is_space c = (c \<in> set [CHR 0x09, CHR 0x0A, CHR 0x0B, CHR 0x0C, CHR 0x0D,
                              CHR 0x1C, CHR 0x1D, CHR 0x1E, CHR 0x1F, CHR 0x20])"

definition py_strip :: "string \<Rightarrow> string" where
  "py_strip s = rev (dropWhile is_space (rev (dropWhile is_space s)))"

definition is_linebreak :: "char \<Rightarrow> bool" where
  "is_linebreak c = (c \<in> set [CHR 0x0A, CHR 0x0B, CHR 0x0C, CHR 0x0D, CHR 0x1C, CHR 0x1D, CHR 0x1E])"

fun splitlines_from :: "bool \<Rightarrow> string \<Rightarrow> string \<Rightarrow> string list" where
  "splitlines_from after_cr cur [] = (if cur = [] then [] else [cur])"
| "splitlines_from after_cr cur (c # cs) =
     (if after_cr \<and> c = CHR 0x0A then splitlines_from False cur cs
      else if is_linebreak c then cur # splitlines_from (c = CHR 0x0D) [] cs
      else splitlines_from False (cur @ [c]) cs)"

definition py_splitlines :: "string \<Rightarrow> string list" where
  "py_splitlines s = splitlines_from False [] s"

text \<open>\<^verbatim>\<open>message_entry.get("0.0", END)\<close>: a Tk text widget gives its content and a line feed.\<close>

definition textbox_get :: "string \<Rightarrow> string" where
  "textbox_get content = content @ [CHR 0x0A]"

definition placeholder :: string where
  "placeholder = ''Type your message(s) here. Each line is a separate message.''"

section \<open>Dates and times (datetime of the standard library)\<close>

record datetime =
  year :: int
  month :: int
  day :: int
  hour :: int
  minute :: int
  second :: int
  microsecond :: int

definition is_leap :: "int \<Rightarrow> bool" where
  "is_leap y = (y mod 4 = 0 \<and> (y mod 100 \<noteq> 0 \<or> y mod 400 = 0))"

definition days_in_month :: "int \<Rightarrow> int \<Rightarrow> int" where
  "days_in_month y m =
     (if m = 2 then (if is_leap y then 29 else 28)
      else if m = 4 \<or> m = 6 \<or> m = 9 \<or> m = 11 then 30 else 31)"

text \<open>The checks of the constructor; a value that fails them raises ValueError.\<close>

definition valid_datetime :: "datetime \<Rightarrow> bool" where
  "valid_datetime d =
     (1 \<le> year d \<and> year d \<le> 9999 \<and> 1 \<le> month d \<and> month d \<le> 12
      \<and> 1 \<le> day d \<and> day d \<le> days_in_month (year d) (month d)
      \<and> 0 \<le> hour d \<and> hour d \<le> 23 \<and> 0 \<le> minute d \<and> minute d \<le> 59
      \<and> 0 \<le> second d \<and> second d \<le> 59 \<and> 0 \<le> microsecond d \<and> microsecond d \<le> 999999)"

text \<open>\<^verbatim>\<open>dt.replace(day=d)\<close>, None for the ValueError.\<close>

definition replace_day :: "datetime \<Rightarrow> int \<Rightarrow> datetime option" where
  "replace_day dt d = (if valid_datetime (dt\<lparr>day := d\<rparr>) then Some (dt\<lparr>day := d\<rparr>) else None)"

text \<open>Naive datetimes compare field by field, the year first.\<close>

fun lex_less :: "int list \<Rightarrow> int list \<Rightarrow> bool" where
  "lex_less (x # xs) (y # ys) = (x < y \<or> (x = y \<and> lex_less xs ys))"
| "lex_less [] (y # ys) = True"
| "lex_less xs [] = False"

definition dt_fields :: "datetime \<Rightarrow> int list" where
  "dt_fields d = [year d, month d, day d, hour d, minute d, second d, microsecond d]"

definition dt_less :: "datetime \<Rightarrow> datetime \<Rightarrow> bool" where
  "dt_less a b = lex_less (dt_fields a) (dt_fields b)"

definition dt_le :: "datetime \<Rightarrow> datetime \<Rightarrow> bool" where
  "dt_le a b = (dt_less a b \<or> dt_fields a = dt_fields b)"

text \<open>
  \<^verbatim>\<open>dt + timedelta(days=1)\<close>: the same time of day on the next day of the calendar; None
  for the OverflowError after the last day of the year 9999.
\<close>

definition add_one_day :: "datetime \<Rightarrow> datetime option" where
  "add_one_day d =
     (if day d < days_in_month (year d) (month d) then Some (d\<lparr>day := day d + 1\<rparr>)
      else if month d < 12 then Some (d\<lparr>month := month d + 1, day := 1\<rparr>)
      else if year d < 9999 then Some (d\<lparr>year := year d + 1, month := 1, day := 1\<rparr>)
      else None)"

text \<open>
  \<^verbatim>\<open>datetime.strptime(s, "%H:%M")\<close>: one or two digits up to 23, a colon, one or two digits
  up to 59 (two digits begin with 0 to 5), and nothing else; None for the ValueError.
\<close>

definition digit_of :: "char \<Rightarrow> int option" where
  "digit_of c =
     (if c \<in> set ''0123456789''
      then Some (int (length (takeWhile (\<lambda>d. d \<noteq> c) ''0123456789'')))
      else None)"

fun hour_field :: "int option list \<Rightarrow> int option" where
  "hour_field [Some d] = Some d"
| "hour_field [Some a, Some b] = (if 10 * a + b \<le> 23 then Some (10 * a + b) else None)"
| "hour_field ds = None"

fun minute_field :: "int option list \<Rightarrow> int option" where
  "minute_field [Some d] = Some d"
| "minute_field [Some a, Some b] = (if a \<le> 5 then Some (10 * a + b) else None)"
| "minute_field ds = None"

definition strptime_HM :: "string \<Rightarrow> (int \<times> int) option" where
  "strptime_HM s =
     (let hs = takeWhile (\<lambda>c. c \<noteq> CHR '':'') s;
          rest = dropWhile (\<lambda>c. c \<noteq> CHR '':'') s
      in if rest = [] then None
         else (case hour_field (map digit_of hs) of
                 None \<Rightarrow> None
               | Some h \<Rightarrow>
                   (case minute_field (map digit_of (tl rest)) of
                      None \<Rightarrow> None
                    | Some m \<Rightarrow> Some (h, m))))"

section \<open>The scheduler (class DiscordAutoSender of Working Versions/main - Copy.py)\<close>

datatype sched_status =
    Sched_idle
  | No_message_to_schedule
  | Message_scheduled_for datetime
  | Invalid_time_format
  | Sched_queue_cancelled
  | No_messages_to_send
  | Invalid_delay_value
  | Sending_messages

text \<open>
  The attributes that scheduling, cancelling and the timer threads read or write;
  \<open>delay_var\<close> is the value of \<^verbatim>\<open>float(self.delay_var.get())\<close>, None when that raises.
  Two lists stand for the threads: \<open>waiting\<close> holds the arguments of the
  \<^verbatim>\<open>_wait_and_send\<close> threads that are still in their \<^verbatim>\<open>while\<close> loop, \<open>sending\<close> the
  arguments of the \<^verbatim>\<open>send_messages\<close> threads that \<^verbatim>\<open>start_sending\<close> has started.
\<close>

record scheduler_window =
  sw_is_sending :: bool
  sw_status_var :: sched_status
  message_entry :: string
  delay_var :: "real option"
  scheduled_messages :: "(datetime \<times> string) list"
  waiting :: "(datetime \<times> string) list"
  sending :: "(string list \<times> real) list"

definition get_messages :: "scheduler_window \<Rightarrow> string list" where
  "get_messages a =
     (let text = py_strip (textbox_get (message_entry a))
      in if text = [] \<or> text = placeholder then []
         else filter (\<lambda>line. line \<noteq> []) (map py_strip (py_splitlines text)))"

definition start_sending :: "scheduler_window \<Rightarrow> scheduler_window" where
  "start_sending a =
     (let messages = get_messages a
      in if messages = [] then a\<lparr>sw_status_var := No_messages_to_send\<rparr>
         else (case delay_var a of
                 None \<Rightarrow> a\<lparr>sw_status_var := Invalid_delay_value\<rparr>
               | Some delay \<Rightarrow>
                   if delay < 0 then a\<lparr>sw_status_var := Invalid_delay_value\<rparr>
                   else a\<lparr>sw_is_sending := True,
                          sw_status_var := Sending_messages,
                          sending := sending a @ [(messages, delay)]\<rparr>))"

text \<open>
  \<^verbatim>\<open>schedule_message\<close>, with the clock reading \<open>now\<close> and the answer of the dialog
  (None when it is closed). The time of the dialog is put on today's date; a time that has
  passed gets \<^verbatim>\<open>replace(day=now.day+1)\<close>. Any exception in the \<^verbatim>\<open>try\<close> block ends in the
  status "Invalid time format."
\<close>

definition schedule_message :: "datetime \<Rightarrow> string option \<Rightarrow> scheduler_window \<Rightarrow> scheduler_window" where
  "schedule_message now time_str a =
     (let msg = py_strip (textbox_get (message_entry a))
      in if msg = [] then a\<lparr>sw_status_var := No_message_to_schedule\<rparr>
         else (case time_str of
                 None \<Rightarrow> a
               | Some ts \<Rightarrow>
                   if ts = [] then a
                   else (case strptime_HM ts of
                           None \<Rightarrow> a\<lparr>sw_status_var := Invalid_time_format\<rparr>
                         | Some (h, m) \<Rightarrow>
                             (let send_time = now\<lparr>hour := h, minute := m, second := 0,
                                                    microsecond := 0\<rparr>
                              in case (if dt_less send_time now
                                       then replace_day send_time (day now + 1)
                                       else Some send_time) of
                                   None \<Rightarrow> a\<lparr>sw_status_var := Invalid_time_format\<rparr>
                                 | Some send_time' \<Rightarrow>
                                     a\<lparr>scheduled_messages :=
                                          scheduled_messages a @ [(send_time', msg)],
                                       sw_status_var := Message_scheduled_for send_time',
                                       waiting := waiting a @ [(send_time', msg)]\<rparr>))))"

text \<open>
  \<^verbatim>\<open>_wait_and_send\<close>: the thread reads the clock once a second; when the time has come it
  puts the message into the entry and calls \<^verbatim>\<open>start_sending\<close>. \<open>poll now\<close> lets every
  waiting thread read the clock once, at \<open>now\<close>.
\<close>

definition wait_and_send_fire :: "string \<Rightarrow> scheduler_window \<Rightarrow> scheduler_window" where
  "wait_and_send_fire msg a = start_sending (a\<lparr>message_entry := msg\<rparr>)"

fun poll_threads :: "datetime \<Rightarrow> (datetime \<times> string) list \<Rightarrow> scheduler_window \<Rightarrow> scheduler_window" where
  "poll_threads now [] a = a"
| "poll_threads now ((send_time, msg) # ws) a =
     (if dt_less now send_time
      then poll_threads now ws (a\<lparr>waiting := waiting a @ [(send_time, msg)]\<rparr>)
      else poll_threads now ws (wait_and_send_fire msg a))"

definition poll :: "datetime \<Rightarrow> scheduler_window \<Rightarrow> scheduler_window" where
  "poll now a = poll_threads now (waiting a) (a\<lparr>waiting := []\<rparr>)"

text \<open>\<^verbatim>\<open>cancel_queue\<close> of this class (and of the one in heal_md_enhanced_bridge.py).\<close>

definition cancel_scheduled_queue :: "scheduler_window \<Rightarrow> scheduler_window" where
  "cancel_scheduled_queue a = a\<lparr>scheduled_messages := [], sw_status_var := Sched_queue_cancelled\<rparr>"

text \<open>What the timer threads and the sending they start depend on and leave.\<close>

definition timer_view ::
  "scheduler_window \<Rightarrow> bool \<times> string \<times> real option \<times> (datetime \<times> string) list \<times> (string list \<times> real) list" where
  "timer_view a = (sw_is_sending a, message_entry a, delay_var a, waiting a, sending a)"

text \<open>The window after \<^verbatim>\<open>__init__\<close> with a message typed into the entry.\<close>

definition window_with :: "string \<Rightarrow> scheduler_window" where
  "window_with content =
     \<lparr> sw_is_sending = False,
       sw_status_var = Sched_idle,
       message_entry = content,
       delay_var = Some 1.0,
       scheduled_messages = [],
       waiting = [],
       sending = [] \<rparr>"

definition at_time :: "int \<Rightarrow> int \<Rightarrow> int \<Rightarrow> int \<Rightarrow> int \<Rightarrow> datetime" where
  "at_time y mo d h mi =
     \<lparr> year = y, month = mo, day = d, hour = h, minute = mi, second = 0, microsecond = 0 \<rparr>"

section \<open>The scheduler of heal_md_enhanced_bridge.py\<close>

datatype sched_outcome =
    Error_enter_time
  | Error_enter_message
  | Error_invalid_time
  | Raised_OverflowError
  | Raised_AttributeError

text \<open>
  \<^verbatim>\<open>schedule_message_advanced\<close>, with the clock reading, the content of the time entry and
  of the message entry, and the list \<open>scheduled_messages\<close>, which it returns updated. A time
  of today that is not after \<open>now\<close> gets \<^verbatim>\<open>timedelta(days=1)\<close> added. The class has no
  method \<^verbatim>\<open>_wait_and_send\<close>, so the last statement, which is to start the timer thread,
  raises AttributeError after the entry has been stored.
\<close>

definition schedule_message_advanced ::
  "datetime \<Rightarrow> string \<Rightarrow> string \<Rightarrow> (datetime \<times> string) list
     \<Rightarrow> sched_outcome \<times> (datetime \<times> string) list" where
  "schedule_message_advanced now time_entry entry scheduled =
     (let time_str = py_strip time_entry
      in if time_str = [] then (Error_enter_time, scheduled)
         else (case strptime_HM time_str of
                 None \<Rightarrow> (Error_invalid_time, scheduled)
               | Some (h, m) \<Rightarrow>
                   (let msg = py_strip (textbox_get entry)
                    in if msg = [] \<or> msg = placeholder then (Error_enter_message, scheduled)
                       else (let send_time = now\<lparr>hour := h, minute := m, second := 0,
                                                    microsecond := 0\<rparr>
                             in case (if dt_le send_time now then add_one_day send_time
                                      else Some send_time) of
                                  None \<Rightarrow> (Raised_OverflowError, scheduled)
                                | Some send_time' \<Rightarrow>
                                    (Raised_AttributeError, scheduled @ [(send_time', msg)])))))"

section \<open>Properties of the rate limiter\<close>

lemma can_send_message_frame:
  "burst_threshold (snd (can_send_message t s)) = burst_threshold s"
  "burst_window (snd (can_send_message t s)) = burst_window s"
  "rate_limit (snd (can_send_message t s)) = rate_limit s"
  "exponential_delay (snd (can_send_message t s)) = exponential_delay s"
  "max_delay (snd (can_send_message t s)) = max_delay s"
  "total_processed (snd (can_send_message t s)) = total_processed s"
  "rate_limit_hits (snd (can_send_message t s)) = rate_limit_hits s"
  by (simp_all add: can_send_message_def Let_def)

lemma get_recommended_delay_frame:
  "burst_threshold (snd (get_recommended_delay t s)) = burst_threshold s"
  "burst_window (snd (get_recommended_delay t s)) = burst_window s"
  "rate_limit (snd (get_recommended_delay t s)) = rate_limit s"
  "exponential_delay (snd (get_recommended_delay t s)) = exponential_delay s"
  "max_delay (snd (get_recommended_delay t s)) = max_delay s"
  "total_processed (snd (get_recommended_delay t s)) = total_processed s"
  "rate_limit_hits (snd (get_recommended_delay t s)) = rate_limit_hits s"
  by (simp_all add: get_recommended_delay_def can_send_message_def Let_def split: prod.splits)

lemma get_recommended_delay_value:
  "fst (get_recommended_delay t s) =
     (if fst (can_send_message t s) then max (rate_limit s) 0.1 else exponential_delay s)"
proof (cases "can_send_message t s")
  case (Pair ok s1)
  have "rate_limit s1 = rate_limit s" "exponential_delay s1 = exponential_delay s"
    using can_send_message_frame(3,4) [of t s] Pair by simp_all
  with Pair show ?thesis by (simp add: get_recommended_delay_def)
qed

lemma get_queue_status_state:
  "snd (get_queue_status t0 t1 t2 s) =
     snd (get_recommended_delay t2 (snd (can_send_message t1 s)))"
  by (simp add: get_queue_status_def Let_def split: prod.splits)

text \<open>
  C1. \<^verbatim>\<open>can_send_message\<close> at time \<open>now\<close> answers False exactly when the history pruned to
  the entries less than \<open>burst_window\<close> old has at least \<open>burst_threshold\<close> entries, or is
  not empty and its newest entry is less than \<open>rate_limit\<close> old; in every other case it
  answers True. The history it leaves is the pruned one.
\<close>

theorem can_send_message_iff:
  "(fst (can_send_message now s) = False) =
     (burst_threshold s \<le> int (length (filter (\<lambda>t. now - t < burst_window s) (message_history s)))
      \<or> (filter (\<lambda>t. now - t < burst_window s) (message_history s) \<noteq> []
         \<and> now - last (filter (\<lambda>t. now - t < burst_window s) (message_history s)) < rate_limit s))
   \<and> message_history (snd (can_send_message now s)) =
       filter (\<lambda>t. now - t < burst_window s) (message_history s)"
  by (simp add: can_send_message_def Let_def)

lemma limiter_inv_init: "limiter_inv init_rate_limiter"
  by (simp add: limiter_inv_def init_rate_limiter_def)

lemma limiter_inv_step: "limiter_inv s \<Longrightarrow> limiter_inv (limiter_step s c)"
proof (cases c)
  case (CanSendMessage t)
  then show "limiter_inv s \<Longrightarrow> limiter_inv (limiter_step s c)"
    by (simp add: limiter_inv_def can_send_message_frame)
next
  case (RegisterMessageSent t)
  then show "limiter_inv s \<Longrightarrow> limiter_inv (limiter_step s c)"
    by (simp add: limiter_inv_def register_message_sent_def)
next
  case RegisterRateLimitHit
  then show "limiter_inv s \<Longrightarrow> limiter_inv (limiter_step s c)"
    by (simp add: limiter_inv_def register_rate_limit_hit_def)
next
  case (GetRecommendedDelay t)
  then show "limiter_inv s \<Longrightarrow> limiter_inv (limiter_step s c)"
    by (simp add: limiter_inv_def get_recommended_delay_frame)
next
  case (GetQueueStatus t0 t1 t2)
  then show "limiter_inv s \<Longrightarrow> limiter_inv (limiter_step s c)"
    by (simp add: limiter_inv_def get_queue_status_state get_recommended_delay_frame
        can_send_message_frame)
qed

lemma limiter_inv_foldl: "limiter_inv s \<Longrightarrow> limiter_inv (foldl limiter_step s cs)"
  by (induction cs arbitrary: s) (simp_all add: limiter_inv_step)

lemma limiter_inv_run: "limiter_inv (limiter_run cs)"
  unfolding limiter_run_def by (rule limiter_inv_foldl [OF limiter_inv_init])

text \<open>
  C2. After any sequence of calls from the initial state, \<open>exponential_delay\<close> lies between
  \<open>rate_limit\<close> (0.5) and \<open>max_delay\<close> (30). A hit sets it to the minimum of \<open>max_delay\<close> and
  twice its value, so it does not decrease; a successful send sets it to the maximum of
  \<open>rate_limit\<close> and 0.9 times its value, so it does not increase; the queries
  (\<^verbatim>\<open>can_send_message\<close>, \<^verbatim>\<open>get_recommended_delay\<close>, \<^verbatim>\<open>get_queue_status\<close>) leave it as it is.
\<close>

theorem exponential_delay_bounds:
  "rate_limit (limiter_run cs) \<le> exponential_delay (limiter_run cs)
   \<and> exponential_delay (limiter_run cs) \<le> max_delay (limiter_run cs)
   \<and> rate_limit (limiter_run cs) = 0.5 \<and> max_delay (limiter_run cs) = 30
   \<and> exponential_delay (register_rate_limit_hit (limiter_run cs)) =
       min (max_delay (limiter_run cs)) (exponential_delay (limiter_run cs) * 2)
   \<and> exponential_delay (limiter_run cs) \<le> exponential_delay (register_rate_limit_hit (limiter_run cs))
   \<and> exponential_delay (register_message_sent now (limiter_run cs)) =
       max (rate_limit (limiter_run cs)) (exponential_delay (limiter_run cs) * 0.9)
   \<and> exponential_delay (register_message_sent now (limiter_run cs)) \<le> exponential_delay (limiter_run cs)
   \<and> exponential_delay (snd (can_send_message now (limiter_run cs))) = exponential_delay (limiter_run cs)
   \<and> exponential_delay (snd (get_recommended_delay now (limiter_run cs))) = exponential_delay (limiter_run cs)
   \<and> exponential_delay (snd (get_queue_status t0 t1 t2 (limiter_run cs))) = exponential_delay (limiter_run cs)"
proof -
  have inv: "limiter_inv (limiter_run cs)" by (rule limiter_inv_run)
  have rl: "rate_limit (limiter_run cs) = 0.5" and md: "max_delay (limiter_run cs) = 30"
    and lo: "0.5 \<le> exponential_delay (limiter_run cs)"
    and hi: "exponential_delay (limiter_run cs) \<le> 30"
    using inv by (simp_all add: limiter_inv_def)
  have hit: "exponential_delay (register_rate_limit_hit (limiter_run cs)) =
      min (max_delay (limiter_run cs)) (exponential_delay (limiter_run cs) * 2)"
    by (simp add: register_rate_limit_hit_def)
  have sent: "exponential_delay (register_message_sent now (limiter_run cs)) =
      max (rate_limit (limiter_run cs)) (exponential_delay (limiter_run cs) * 0.9)"
    unfolding rl by (simp add: register_message_sent_def)
  have up: "exponential_delay (limiter_run cs) \<le>
      exponential_delay (register_rate_limit_hit (limiter_run cs))"
    unfolding hit md using lo hi by simp
  have down: "exponential_delay (register_message_sent now (limiter_run cs)) \<le>
      exponential_delay (limiter_run cs)"
    unfolding sent rl using lo hi by simp
  have bounds: "rate_limit (limiter_run cs) \<le> exponential_delay (limiter_run cs)"
    "exponential_delay (limiter_run cs) \<le> max_delay (limiter_run cs)"
    unfolding rl md using lo hi by simp_all
  have queries:
    "exponential_delay (snd (can_send_message now (limiter_run cs))) =
       exponential_delay (limiter_run cs)"
    "exponential_delay (snd (get_recommended_delay now (limiter_run cs))) =
       exponential_delay (limiter_run cs)"
    "exponential_delay (snd (get_queue_status t0 t1 t2 (limiter_run cs))) =
       exponential_delay (limiter_run cs)"
    by (simp_all add: can_send_message_frame get_recommended_delay_frame get_queue_status_state)
  from bounds rl md hit up sent down queries show ?thesis by blast
qed

text \<open>
  C9. \<^verbatim>\<open>get_queue_status\<close> leaves \<open>total_processed\<close> and \<open>rate_limit_hits\<close> as they were, in
  every state and at every reading of the clock, and the snapshot reports these values.
\<close>

theorem get_queue_status_counters:
  "total_processed (snd (get_queue_status t0 t1 t2 s)) = total_processed s
   \<and> rate_limit_hits (snd (get_queue_status t0 t1 t2 s)) = rate_limit_hits s
   \<and> qs_total_processed (fst (get_queue_status t0 t1 t2 s)) = total_processed s
   \<and> qs_rate_limit_hits (fst (get_queue_status t0 t1 t2 s)) = rate_limit_hits s"
proof -
  have "total_processed (snd (get_queue_status t0 t1 t2 s)) = total_processed s"
    and "rate_limit_hits (snd (get_queue_status t0 t1 t2 s)) = rate_limit_hits s"
    by (simp_all add: get_queue_status_state get_recommended_delay_frame can_send_message_frame)
  moreover have "qs_total_processed (fst (get_queue_status t0 t1 t2 s)) =
      total_processed (snd (get_queue_status t0 t1 t2 s))"
    and "qs_rate_limit_hits (fst (get_queue_status t0 t1 t2 s)) =
      rate_limit_hits (snd (get_queue_status t0 t1 t2 s))"
    by (simp_all add: get_queue_status_def Let_def split: prod.splits)
  ultimately show ?thesis by simp
qed

text \<open>
  C10. In every state reached from the initial one by calls of the methods,
  \<^verbatim>\<open>get_recommended_delay\<close> returns at least 0.5 seconds, hence at least 0.1 and more than
  zero: a caller that sleeps for it never waits zero time.
\<close>

theorem get_recommended_delay_positive:
  "0.5 \<le> fst (get_recommended_delay now (limiter_run cs))
   \<and> 0.1 \<le> fst (get_recommended_delay now (limiter_run cs))
   \<and> 0 < fst (get_recommended_delay now (limiter_run cs))"
proof -
  have inv: "limiter_inv (limiter_run cs)" by (rule limiter_inv_run)
  have rl: "rate_limit (limiter_run cs) = 0.5"
    and lo: "0.5 \<le> exponential_delay (limiter_run cs)"
    using inv by (simp_all add: limiter_inv_def)
  have "0.5 \<le> fst (get_recommended_delay now (limiter_run cs))"
    unfolding get_recommended_delay_value rl using lo by simp
  then show ?thesis by simp
qed

section \<open>Properties of the dispatch loop\<close>

lemma gui_step_transmitted: "transmitted (foldl gui_step a evs) = transmitted a"
proof (induction evs arbitrary: a)
  case Nil
  show ?case by simp
next
  case (Cons e evs)
  have "transmitted (gui_step a e) = transmitted a"
    by (cases e) (simp_all add: pause_queue_def resume_queue_def cancel_queue_def stop_sending_def)
  with Cons show ?case by simp
qed

lemma send_iteration_transmitted:
  "transmitted (final_state (send_iteration t1 t2 delay msg a)) = transmitted a @ [msg]
   \<or> transmitted (final_state (send_iteration t1 t2 delay msg a)) = transmitted a"
  by (simp add: send_iteration_def py_sleep_def final_state_def split: prod.splits)

lemma send_messages_from_subseq:
  "\<exists>xs. transmitted (final_state (send_messages_from env i ms delay a)) = transmitted a @ xs
        \<and> subseq xs ms"
proof (induction ms arbitrary: a i)
  case Nil
  show ?case by (simp add: final_state_def)
next
  case (Cons msg rest)
  obtain evs t1 t2 where e: "env i = (evs, t1, t2)" by (cases "env i") auto
  define a1 where "a1 = foldl gui_step a evs"
  have t1: "transmitted a1 = transmitted a" by (simp add: a1_def gui_step_transmitted)
  show ?case
  proof (cases "is_sending a1")
    case False
    then have "send_messages_from env i (msg # rest) delay a = Inr a1"
      using e by (simp add: a1_def)
    with t1 show ?thesis by (simp add: final_state_def)
  next
    case True
    note sending = True
    show ?thesis
    proof (cases "send_iteration t1 t2 delay msg a1")
      case (Inl err)
      then have r: "send_messages_from env i (msg # rest) delay a =
          send_iteration t1 t2 delay msg a1"
        using e sending by (simp add: a1_def)
      from send_iteration_transmitted [of t1 t2 delay msg a1]
      show ?thesis
      proof
        assume "transmitted (final_state (send_iteration t1 t2 delay msg a1)) =
            transmitted a1 @ [msg]"
        then have "transmitted (final_state (send_messages_from env i (msg # rest) delay a)) =
            transmitted a @ [msg]"
          using r t1 by simp
        moreover have "subseq [msg] (msg # rest)" by simp
        ultimately show ?thesis by blast
      next
        assume "transmitted (final_state (send_iteration t1 t2 delay msg a1)) = transmitted a1"
        then have "transmitted (final_state (send_messages_from env i (msg # rest) delay a)) =
            transmitted a @ []"
          using r t1 by simp
        moreover have "subseq [] (msg # rest)" by simp
        ultimately show ?thesis by blast
      qed
    next
      case (Inr a2)
      then have r: "send_messages_from env i (msg # rest) delay a =
          send_messages_from env (Suc i) rest delay a2"
        using e sending by (simp add: a1_def)
      have f: "final_state (send_iteration t1 t2 delay msg a1) = a2"
        using Inr by (simp add: final_state_def)
      obtain xs where xs:
        "transmitted (final_state (send_messages_from env (Suc i) rest delay a2)) =
           transmitted a2 @ xs" "subseq xs rest"
        using Cons.IH [of "Suc i" a2] by blast
      from send_iteration_transmitted [of t1 t2 delay msg a1]
      show ?thesis
      proof
        assume "transmitted (final_state (send_iteration t1 t2 delay msg a1)) =
            transmitted a1 @ [msg]"
        then have "transmitted (final_state (send_messages_from env i (msg # rest) delay a)) =
            transmitted a @ (msg # xs)"
          using r xs(1) t1 f by simp
        moreover have "subseq (msg # xs) (msg # rest)" using xs(2) by simp
        ultimately show ?thesis by blast
      next
        assume "transmitted (final_state (send_iteration t1 t2 delay msg a1)) = transmitted a1"
        then have "transmitted (final_state (send_messages_from env i (msg # rest) delay a)) =
            transmitted a @ xs"
          using r xs(1) t1 f by simp
        moreover have "subseq xs (msg # rest)" using xs(2) by (rule list_emb_Cons)
        ultimately show ?thesis by blast
      qed
    qed
  qed
qed

lemma gui_step_view:
  "dispatch_view a = dispatch_view a' \<Longrightarrow>
   dispatch_view (foldl gui_step a evs) =
     dispatch_view (foldl gui_step a' (filter (\<lambda>e. \<not> is_pause_event e) evs))"
proof (induction evs arbitrary: a a')
  case Nil
  then show ?case by simp
next
  case (Cons e evs)
  show ?case
  proof (cases "is_pause_event e")
    case True
    then have "dispatch_view (gui_step a e) = dispatch_view a"
      by (cases e) (simp_all add: is_pause_event_def dispatch_view_def pause_queue_def
          resume_queue_def)
    with Cons.prems have "dispatch_view (gui_step a e) = dispatch_view a'" by simp
    from Cons.IH [OF this] True show ?thesis by simp
  next
    case False
    have "dispatch_view (gui_step a e) = dispatch_view (gui_step a' e)"
      using Cons.prems
      by (cases e) (simp_all add: dispatch_view_def pause_queue_def resume_queue_def
          cancel_queue_def stop_sending_def)
    from Cons.IH [OF this] False show ?thesis by simp
  qed
qed

lemma py_sleep_view:
  "dispatch_view a = dispatch_view a' \<Longrightarrow>
   result_view (py_sleep d a) = result_view (py_sleep d a')"
  by (simp add: result_view_def dispatch_view_def py_sleep_def final_state_def)

lemma send_iteration_view:
  "dispatch_view a = dispatch_view a' \<Longrightarrow>
   result_view (send_iteration t1 t2 delay msg a) =
     result_view (send_iteration t1 t2 delay msg a')"
  by (simp add: result_view_def dispatch_view_def send_iteration_def py_sleep_def
      final_state_def split: prod.splits)

lemma result_view_Inl:
  "dispatch_view a = dispatch_view a' \<Longrightarrow> result_view (Inl (e, a)) = result_view (Inl (e', a'))"
  by (simp add: result_view_def final_state_def)

lemma result_view_Inr:
  "dispatch_view a = dispatch_view a' \<Longrightarrow> result_view (Inr a) = result_view (Inr a')"
  by (simp add: result_view_def final_state_def)

lemma result_view_Inl_Inr: "result_view (Inl p) \<noteq> result_view (Inr b)"
  by (simp add: result_view_def)

lemma result_view_Inl_D:
  "result_view (Inl (e, a)) = result_view (Inl (e', a')) \<Longrightarrow> dispatch_view a = dispatch_view a'"
  by (simp add: result_view_def final_state_def)

lemma result_view_Inr_D:
  "result_view (Inr a) = result_view (Inr a') \<Longrightarrow> dispatch_view a = dispatch_view a'"
  by (simp add: result_view_def final_state_def)

lemma send_messages_from_Cons:
  "env i = (evs, t1, t2) \<Longrightarrow>
   send_messages_from env i (msg # rest) delay a =
     (if \<not> is_sending (foldl gui_step a evs) then Inr (foldl gui_step a evs)
      else (case send_iteration t1 t2 delay msg (foldl gui_step a evs) of
              Inl e \<Rightarrow> Inl e
            | Inr a2 \<Rightarrow> send_messages_from env (Suc i) rest delay a2))"
  by (simp add: Let_def)

lemma send_messages_from_view:
  "dispatch_view a = dispatch_view a' \<Longrightarrow>
   result_view (send_messages_from env i ms delay a) =
     result_view (send_messages_from (without_pause env) i ms delay a')"
proof (induction ms arbitrary: a a' i)
  case Nil
  then show ?case by (simp add: result_view_def final_state_def)
next
  case (Cons msg rest)
  obtain evs t1 t2 where e: "env i = (evs, t1, t2)" by (cases "env i") auto
  then have e': "without_pause env i = (filter (\<lambda>e. \<not> is_pause_event e) evs, t1, t2)"
    by (simp add: without_pause_def)
  define a1 where "a1 = foldl gui_step a evs"
  define a1' where "a1' = foldl gui_step a' (filter (\<lambda>e. \<not> is_pause_event e) evs)"
  have v: "dispatch_view a1 = dispatch_view a1'"
    unfolding a1_def a1'_def by (rule gui_step_view [OF Cons.prems])
  then have s: "is_sending a1' = is_sending a1" by (simp add: dispatch_view_def)
  have L: "send_messages_from env i (msg # rest) delay a =
      (if \<not> is_sending a1 then Inr a1
       else (case send_iteration t1 t2 delay msg a1 of
               Inl e \<Rightarrow> Inl e
             | Inr a2 \<Rightarrow> send_messages_from env (Suc i) rest delay a2))"
    unfolding a1_def using e by (rule send_messages_from_Cons)
  have R: "send_messages_from (without_pause env) i (msg # rest) delay a' =
      (if \<not> is_sending a1 then Inr a1'
       else (case send_iteration t1 t2 delay msg a1' of
               Inl e \<Rightarrow> Inl e
             | Inr a2 \<Rightarrow> send_messages_from (without_pause env) (Suc i) rest delay a2))"
    unfolding s [symmetric] a1'_def using e' by (rule send_messages_from_Cons)
  have it: "result_view (send_iteration t1 t2 delay msg a1) =
      result_view (send_iteration t1 t2 delay msg a1')"
    by (rule send_iteration_view [OF v])
  show ?case
  proof (cases "is_sending a1")
    case False
    show ?thesis unfolding L R using False result_view_Inr [OF v] by simp
  next
    case True
    show ?thesis
    proof (cases "send_iteration t1 t2 delay msg a1")
      case (Inl p)
      note l = Inl
      obtain er b where p: "p = (er, b)" by (cases p)
      show ?thesis
      proof (cases "send_iteration t1 t2 delay msg a1'")
        case (Inl p')
        obtain er' b' where p': "p' = (er', b')" by (cases p')
        have "result_view (Inl (er, b)) = result_view (Inl (er', b'))"
          using it l Inl p p' by simp
        then show ?thesis unfolding L R using True l Inl p p' by simp
      next
        case (Inr b')
        then have False using it l result_view_Inl_Inr [of p b'] by simp
        then show ?thesis ..
      qed
    next
      case (Inr b)
      note r = Inr
      show ?thesis
      proof (cases "send_iteration t1 t2 delay msg a1'")
        case (Inl p')
        then have False using it r result_view_Inl_Inr [of p' b] by simp
        then show ?thesis ..
      next
        case (Inr b')
        have "result_view (Inr b) = result_view (Inr b')" using it r Inr by simp
        then have "dispatch_view b = dispatch_view b'" by (rule result_view_Inr_D)
        from Cons.IH [OF this, of "Suc i"] show ?thesis
          unfolding L R using True r Inr by simp
      qed
    qed
  qed
qed

text \<open>
  C3. Six messages, one second apart, from a fresh window (\<^verbatim>\<open>start_sending\<close> passes the
  delay 1.0 of \<^verbatim>\<open>get_delay\<close>): the first five are sent at the seconds 0 to 4; at second 5
  the limiter refuses the sixth (five entries in the window), the loop counts an error,
  registers a hit, sleeps for the recommended delay and then the loop is over: the sixth
  message was never handed on, and the status line says that six were sent.
\<close>

theorem send_messages_drops_refused_message:
  "send_messages (quiet_env real)
      [''m1'', ''m2'', ''m3'', ''m4'', ''m5'', ''m6''] 1 started_sender =
     Inr (final_state (send_messages (quiet_env real)
      [''m1'', ''m2'', ''m3'', ''m4'', ''m5'', ''m6''] 1 started_sender))
   \<and> transmitted (final_state (send_messages (quiet_env real)
      [''m1'', ''m2'', ''m3'', ''m4'', ''m5'', ''m6''] 1 started_sender)) =
     [''m1'', ''m2'', ''m3'', ''m4'', ''m5'']
   \<and> analytics_sent (final_state (send_messages (quiet_env real)
      [''m1'', ''m2'', ''m3'', ''m4'', ''m5'', ''m6''] 1 started_sender)) = 5
   \<and> analytics_errors (final_state (send_messages (quiet_env real)
      [''m1'', ''m2'', ''m3'', ''m4'', ''m5'', ''m6''] 1 started_sender)) = 1
   \<and> slept (final_state (send_messages (quiet_env real)
      [''m1'', ''m2'', ''m3'', ''m4'', ''m5'', ''m6''] 1 started_sender)) =
     [1, 1, 1, 1, 1, 59049 / 50000, 1]
   \<and> status_var (final_state (send_messages (quiet_env real)
      [''m1'', ''m2'', ''m3'', ''m4'', ''m5'', ''m6''] 1 started_sender)) = Sent_summary 6 1"
  by (simp add: send_messages_def quiet_env_def started_sender_def send_iteration_def
      py_sleep_def final_state_def can_send_message_def register_message_sent_def
      register_rate_limit_hit_def get_recommended_delay_def init_rate_limiter_def Let_def)

text \<open>
  C4, as the claim states it, fails: with the queue paused before the loop runs and never
  resumed, the loop still hands the message on.
\<close>

theorem paused_queue_still_sends:
  "queue_paused (pause_queue started_sender)
   \<and> queue_paused (final_state
        (send_messages (quiet_env real) [''m1''] 1 (pause_queue started_sender)))
   \<and> transmitted (final_state
        (send_messages (quiet_env real) [''m1''] 1 (pause_queue started_sender))) = [''m1'']"
  by (simp add: send_messages_def quiet_env_def started_sender_def send_iteration_def
      py_sleep_def final_state_def can_send_message_def register_message_sent_def
      pause_queue_def init_rate_limiter_def Let_def)

text \<open>
  C4, amended. \<^verbatim>\<open>pause_queue\<close> and \<^verbatim>\<open>resume_queue\<close> write the flag \<open>queue_paused\<close> and the
  status line and nothing else, and the loop never reads the flag: whether the loop
  returns, what it sends, how long it sleeps and the state it leaves (the flag and the
  status line apart) are the same as in a run without the calls of the two controls. The
  messages handed on are a subsequence of the list given to the loop: in the original
  order, none twice.
\<close>

theorem pause_resume_no_effect:
  "dispatch_view (pause_queue a) = dispatch_view a
   \<and> dispatch_view (resume_queue a) = dispatch_view a
   \<and> result_view (send_messages env ms delay a) =
       result_view (send_messages (without_pause env) ms delay a)
   \<and> (\<exists>xs. transmitted (final_state (send_messages env ms delay a)) = transmitted a @ xs
            \<and> subseq xs ms)"
proof -
  have fv: "result_view (send_messages_from env 0 ms delay a) =
      result_view (send_messages_from (without_pause env) 0 ms delay a)"
    by (rule send_messages_from_view) simp
  have "result_view (send_messages env ms delay a) =
      result_view (send_messages (without_pause env) ms delay a)"
    using fv
    by (cases "send_messages_from env 0 ms delay a";
        cases "send_messages_from (without_pause env) 0 ms delay a")
      (simp_all add: send_messages_def result_view_def final_state_def dispatch_view_def
        split: prod.splits)
  moreover have "transmitted (final_state (send_messages env ms delay a)) =
      transmitted (final_state (send_messages_from env 0 ms delay a))"
    by (cases "send_messages_from env 0 ms delay a")
      (simp_all add: send_messages_def final_state_def)
  then have "\<exists>xs. transmitted (final_state (send_messages env ms delay a)) = transmitted a @ xs
      \<and> subseq xs ms"
    using send_messages_from_subseq [of env 0 ms delay a] by simp
  moreover have "dispatch_view (pause_queue a) = dispatch_view a"
    "dispatch_view (resume_queue a) = dispatch_view a"
    by (simp_all add: dispatch_view_def pause_queue_def resume_queue_def)
  ultimately show ?thesis by blast
qed

section \<open>Properties of the retrying transmitter\<close>

lemma and_then_attempt:
  "filter is_attempt (fst p) = [] \<Longrightarrow> filter is_attempt (fst q) = [] \<Longrightarrow>
   filter is_attempt (fst (and_then p q)) = []"
  by (simp add: and_then_def)

lemma kb_op_attempt: "\<not> is_attempt ev \<Longrightarrow> filter is_attempt (fst (kb_op c k ev)) = []"
  by (simp add: kb_op_def)

lemma sleep_op_attempt: "filter is_attempt (fst (sleep_op d)) = []"
  by (simp add: sleep_op_def is_attempt_def)

lemma type_chars_attempt: "filter is_attempt (fst (type_chars c st i k message)) = []"
proof (induction message arbitrary: i k)
  case Nil
  show ?case by (simp add: kb_op_def is_attempt_def)
next
  case (Cons ch rest)
  have w: "\<And>x. \<not> is_attempt (KeyWrite x)" and p: "\<And>x. \<not> is_attempt (KeyPress x)"
    by (simp_all add: is_attempt_def)
  show ?case
    by (simp add: and_then_attempt kb_op_attempt sleep_op_attempt w p Cons.IH)
qed

lemma focus_attempt: "filter is_attempt (fst (focus_discord_window w)) = []"
  by (cases w) (simp_all add: focus_discord_window_def is_attempt_def)

lemma focus_pauses: "pauses_and_logs (fst (focus_discord_window w)) = []"
  by (cases w) (simp_all add: focus_discord_window_def pauses_and_logs_def is_pause_or_log_def)

lemma attempts_Cons: "attempts (Attempt a # tr) = Suc (attempts tr)"
  by (simp add: attempts_def is_attempt_def)

lemma attempts_append: "attempts (xs @ ys) = attempts xs + attempts ys"
  by (simp add: attempts_def)

lemma attempts_focus: "attempts (fst (focus_discord_window w)) = 0"
  by (simp add: attempts_def focus_attempt)

lemma attempts_typed: "attempts (fst (type_chars c st i k message)) = 0"
  by (simp add: attempts_def type_chars_attempt)

lemma attempts_handler: "attempts [LogError a, Sleep 1] = 0"
  by (simp add: attempts_def is_attempt_def)

lemma pauses_Cons_attempt: "pauses_and_logs (Attempt a # tr) = pauses_and_logs tr"
  by (simp add: pauses_and_logs_def is_pause_or_log_def)

lemma pauses_append: "pauses_and_logs (xs @ ys) = pauses_and_logs xs @ pauses_and_logs ys"
  by (simp add: pauses_and_logs_def)

lemma attempt_loop_python_main:
  "attempt_loop Python_main env st message (a # rest) =
     (fst (attempt_loop Python_main env st message rest),
      Attempt a # [LogError a, Sleep 1] @ snd (attempt_loop Python_main env st message rest))"
  by (simp split: prod.splits)

lemma attempt_loop_bridge:
  "attempt_loop Bridge env st message (a # rest) =
     (if \<not> focus_ok (env a)
      then (fst (attempt_loop Bridge env st message rest),
            Attempt a # fst (focus_discord_window (focus_result (env a)))
              @ snd (attempt_loop Bridge env st message rest))
      else if snd (type_chars (env a) st 0 0 message)
      then (True, Attempt a # fst (focus_discord_window (focus_result (env a)))
              @ fst (type_chars (env a) st 0 0 message))
      else (fst (attempt_loop Bridge env st message rest),
            Attempt a # fst (focus_discord_window (focus_result (env a)))
              @ fst (type_chars (env a) st 0 0 message)
              @ [LogError a, Sleep 1] @ snd (attempt_loop Bridge env st message rest)))"
  by (simp add: focus_ok_def split: prod.splits)

lemma attempt_loop_attempts_le:
  "attempts (snd (attempt_loop src env st message as)) \<le> length as"
proof (induction as)
  case Nil
  show ?case by (simp add: attempts_def is_attempt_def)
next
  case (Cons a rest)
  show ?case
  proof (cases src)
    case Bridge
    show ?thesis
      unfolding Bridge attempt_loop_bridge
      using Cons.IH [unfolded Bridge]
      by (simp add: attempts_Cons attempts_append attempts_focus attempts_typed attempts_handler
          del: attempt_loop.simps append.simps)
  next
    case Python_main
    show ?thesis
      unfolding Python_main attempt_loop_python_main
      using Cons.IH [unfolded Python_main]
      by (simp add: attempts_Cons attempts_append attempts_handler
          del: attempt_loop.simps append.simps)
  qed
qed

lemma attempt_loop_all_fail:
  "(\<And>a. \<not> attempt_succeeds src (env a) st message) \<Longrightarrow>
   fst (attempt_loop src env st message as) = False
   \<and> attempts (snd (attempt_loop src env st message as)) = length as"
proof (induction as)
  case Nil
  show ?case by (simp add: attempts_def is_attempt_def)
next
  case (Cons a rest)
  have ih: "fst (attempt_loop src env st message rest) = False"
    "attempts (snd (attempt_loop src env st message rest)) = length rest"
    using Cons.IH [OF Cons.prems] by simp_all
  show ?case
  proof (cases src)
    case Bridge
    have f: "\<not> (focus_ok (env a) \<and> snd (type_chars (env a) st 0 0 message))"
      using Cons.prems [of a] Bridge by (simp add: attempt_succeeds_def)
    show ?thesis
      unfolding Bridge attempt_loop_bridge
      using f ih [unfolded Bridge]
      by (auto simp add: attempts_Cons attempts_append attempts_focus attempts_typed
          attempts_handler simp del: attempt_loop.simps append.simps)
  next
    case Python_main
    show ?thesis
      unfolding Python_main attempt_loop_python_main
      using ih [unfolded Python_main]
      by (simp add: attempts_Cons attempts_append attempts_handler
          del: attempt_loop.simps append.simps)
  qed
qed

lemma attempt_loop_skips_failed_focus:
  "fst (attempt_loop Bridge env st message as) =
     fst (attempt_loop Bridge env st message (filter (\<lambda>a. focus_ok (env a)) as))
   \<and> pauses_and_logs (snd (attempt_loop Bridge env st message as)) =
       pauses_and_logs (snd (attempt_loop Bridge env st message
         (filter (\<lambda>a. focus_ok (env a)) as)))"
proof (induction as)
  case Nil
  show ?case by simp
next
  case (Cons a rest)
  show ?case
  proof (cases "focus_ok (env a)")
    case False
    have "attempt_loop Bridge env st message (a # rest) =
        (fst (attempt_loop Bridge env st message rest),
         Attempt a # fst (focus_discord_window (focus_result (env a)))
           @ snd (attempt_loop Bridge env st message rest))"
      unfolding attempt_loop_bridge using False by simp
    moreover have "filter (\<lambda>a. focus_ok (env a)) (a # rest) =
        filter (\<lambda>a. focus_ok (env a)) rest"
      using False by simp
    ultimately show ?thesis
      using Cons.IH
      by (simp add: pauses_Cons_attempt pauses_append focus_pauses
          del: attempt_loop.simps append.simps)
  next
    case True
    then have fl: "filter (\<lambda>a. focus_ok (env a)) (a # rest) =
        a # filter (\<lambda>a. focus_ok (env a)) rest"
      by simp
    show ?thesis
    proof (cases "snd (type_chars (env a) st 0 0 message)")
      case typed: True
      show ?thesis
        unfolding fl attempt_loop_bridge using True typed by simp
    next
      case raised: False
      show ?thesis
        unfolding fl attempt_loop_bridge using True raised Cons.IH
        by (simp add: pauses_Cons_attempt pauses_append
            del: attempt_loop.simps append.simps)
    qed
  qed
qed

lemma attempt_loop_no_focus:
  "(\<And>a. \<not> focus_ok (env a)) \<Longrightarrow>
   attempt_loop Bridge env st message as =
     (False, concat (map (\<lambda>a. Attempt a # fst (focus_discord_window (focus_result (env a)))) as)
             @ [ErrorDialog (max_attempts_of st)])"
proof (induction as)
  case Nil
  show ?case by simp
next
  case (Cons a rest)
  have "attempt_loop Bridge env st message (a # rest) =
      (fst (attempt_loop Bridge env st message rest),
       Attempt a # fst (focus_discord_window (focus_result (env a)))
         @ snd (attempt_loop Bridge env st message rest))"
    unfolding attempt_loop_bridge using Cons.prems [of a] by simp
  then show ?case
    unfolding Cons.IH [OF Cons.prems] by simp
qed

lemma attempt_loop_name_error:
  "attempt_loop Python_main env st message as =
     (False, concat (map (\<lambda>a. [Attempt a, LogError a, Sleep 1]) as)
             @ [ErrorDialog (max_attempts_of st)])"
proof (induction as)
  case Nil
  show ?case by simp
next
  case (Cons a rest)
  show ?case
    unfolding attempt_loop_python_main Cons.IH by simp
qed

text \<open>
  C7. With a number of attempts that is not negative, \<^verbatim>\<open>send_message_advanced\<close> never
  begins more than \<open>max_attempts\<close> attempts; when no attempt succeeds (the window cannot be
  focused, or the typing raises) it begins exactly \<open>max_attempts\<close> attempts and returns
  False. With the default of 3 attempts these are 3 attempts. This holds in both files.
\<close>

theorem send_message_advanced_exhausts:
  assumes "0 \<le> max_attempts_of st"
  shows "int (attempts (snd (send_message_advanced src env message st))) \<le> max_attempts_of st
    \<and> ((\<forall>a. \<not> attempt_succeeds src (env a) st message) \<longrightarrow>
         fst (send_message_advanced src env message st) = False
         \<and> int (attempts (snd (send_message_advanced src env message st))) = max_attempts_of st)"
proof -
  have len: "int (length [1 .. max_attempts_of st]) = max_attempts_of st"
    using assms by simp
  have "attempts (snd (send_message_advanced src env message st))
      \<le> length [1 .. max_attempts_of st]"
    unfolding send_message_advanced_def by (rule attempt_loop_attempts_le)
  then have le: "int (attempts (snd (send_message_advanced src env message st)))
      \<le> max_attempts_of st"
    using len by linarith
  have "fst (send_message_advanced src env message st) = False
      \<and> int (attempts (snd (send_message_advanced src env message st))) = max_attempts_of st"
    if "\<forall>a. \<not> attempt_succeeds src (env a) st message"
  proof -
    have "fst (attempt_loop src env st message [1 .. max_attempts_of st]) = False
      \<and> attempts (snd (attempt_loop src env st message [1 .. max_attempts_of st])) =
          length [1 .. max_attempts_of st]"
      by (rule attempt_loop_all_fail) (simp add: that)
    then show ?thesis using len by (simp add: send_message_advanced_def)
  qed
  with le show ?thesis by blast
qed

theorem send_message_advanced_exhausts_witness:
  "0 \<le> max_attempts_of default_settings
   \<and> max_attempts_of default_settings = 3
   \<and> (\<forall>a. \<not> attempt_succeeds Bridge ((\<lambda>a. broken_keyboard) a) default_settings ''hi'')
   \<and> fst (send_message_advanced Bridge (\<lambda>a. broken_keyboard) ''hi'' default_settings) = False
   \<and> attempts (snd (send_message_advanced Bridge (\<lambda>a. broken_keyboard) ''hi'' default_settings)) = 3"
proof -
  have m: "max_attempts_of default_settings = 3"
    by (simp add: max_attempts_of_def default_settings_def)
  have f: "\<forall>a. \<not> attempt_succeeds Bridge ((\<lambda>a. broken_keyboard) a) default_settings ''hi''"
    by (simp add: attempt_succeeds_def broken_keyboard_def default_settings_def kb_op_def
        sleep_op_def and_then_def pace_def mistake_sim_of_def random_delay_of_def
        typing_speed_of_def)
  have h: "0 \<le> max_attempts_of default_settings" using m by simp
  from send_message_advanced_exhausts [OF h, of Bridge "\<lambda>a. broken_keyboard" "''hi''"] f m
  show ?thesis by simp
qed

text \<open>
  C8, as the claim states it, fails in heal_md_enhanced_bridge.py: when no window is found,
  the three attempts follow each other with no sleep between them, and then comes the error
  dialog.
\<close>

theorem focus_failure_no_pause_example:
  "send_message_advanced Bridge (\<lambda>a. no_window) ''hi'' default_settings =
     (False, [Attempt 1, FocusWindow False, Attempt 2, FocusWindow False,
              Attempt 3, FocusWindow False, ErrorDialog 3])"
  by (simp add: send_message_advanced_def max_attempts_of_def default_settings_def
      no_window_def focus_discord_window_def upto.simps)

text \<open>
  C8, amended. In heal_md_enhanced_bridge.py the attempts at which
  \<^verbatim>\<open>focus_discord_window\<close> answers False add no sleep and no entry of the handler to the
  call: its result, its sleeps and its handler entries are those of the loop run over the
  other attempts alone. When the focus fails at every attempt, each of the \<open>max_attempts\<close>
  attempts is begun and consists of the call of \<^verbatim>\<open>focus_discord_window\<close> (which has logged
  its own exception, if any) and nothing else, and the dialog follows: the attempts have
  counted. In python/main/main.py, where \<^verbatim>\<open>focus_discord_window\<close> is not defined, every
  attempt is the NameError: an entry of the handler and the pause of one second, for each of
  the \<open>max_attempts\<close> attempts.
\<close>

theorem focus_failure_skips_handler:
  "fst (send_message_advanced Bridge env message st) =
     fst (attempt_loop Bridge env st message
           (filter (\<lambda>a. focus_ok (env a)) [1 .. max_attempts_of st]))
   \<and> pauses_and_logs (snd (send_message_advanced Bridge env message st)) =
       pauses_and_logs (snd (attempt_loop Bridge env st message
           (filter (\<lambda>a. focus_ok (env a)) [1 .. max_attempts_of st])))
   \<and> ((\<forall>a. \<not> focus_ok (env a)) \<longrightarrow>
        send_message_advanced Bridge env message st =
          (False,
           concat (map (\<lambda>a. Attempt a # fst (focus_discord_window (focus_result (env a))))
                       [1 .. max_attempts_of st])
           @ [ErrorDialog (max_attempts_of st)]))
   \<and> send_message_advanced Python_main env message st =
       (False,
        concat (map (\<lambda>a. [Attempt a, LogError a, Sleep 1]) [1 .. max_attempts_of st])
        @ [ErrorDialog (max_attempts_of st)])"
proof -
  have "send_message_advanced Bridge env message st =
      (False,
       concat (map (\<lambda>a. Attempt a # fst (focus_discord_window (focus_result (env a))))
                   [1 .. max_attempts_of st])
       @ [ErrorDialog (max_attempts_of st)])"
    if "\<forall>a. \<not> focus_ok (env a)"
    unfolding send_message_advanced_def
    by (rule attempt_loop_no_focus) (simp add: that)
  moreover have "send_message_advanced Python_main env message st =
      (False,
       concat (map (\<lambda>a. [Attempt a, LogError a, Sleep 1]) [1 .. max_attempts_of st])
       @ [ErrorDialog (max_attempts_of st)])"
    unfolding send_message_advanced_def by (rule attempt_loop_name_error)
  moreover note attempt_loop_skips_failed_focus
    [of env st message "[1 .. max_attempts_of st]", folded send_message_advanced_def]
  ultimately show ?thesis by blast
qed

theorem focus_failure_skips_handler_witness:
  "(\<forall>a. \<not> focus_ok (never_window a))
   \<and> send_message_advanced Bridge never_window ''hi'' default_settings =
       (False, [Attempt 1, FocusWindow False, Attempt 2, LogFocusError, FocusWindow False,
                Attempt 3, FocusWindow False, ErrorDialog 3])
   \<and> pauses_and_logs (snd (send_message_advanced Bridge never_window ''hi'' default_settings)) = []
   \<and> send_message_advanced Python_main never_window ''hi'' default_settings =
       (False, [Attempt 1, LogError 1, Sleep 1, Attempt 2, LogError 2, Sleep 1,
                Attempt 3, LogError 3, Sleep 1, ErrorDialog 3])"
proof -
  have h: "\<forall>a. \<not> focus_ok (never_window a)"
    by (simp add: focus_ok_def never_window_def no_window_def focus_discord_window_def)
  have m: "max_attempts_of default_settings = 3"
    by (simp add: max_attempts_of_def default_settings_def)
  have u: "[1 .. (3::int)] = [1, 2, 3]" by (simp add: upto.simps)
  have f: "fst (focus_discord_window (focus_result (never_window 1))) = [FocusWindow False]"
    "fst (focus_discord_window (focus_result (never_window 2))) =
       [LogFocusError, FocusWindow False]"
    "fst (focus_discord_window (focus_result (never_window 3))) = [FocusWindow False]"
    by (simp_all add: never_window_def no_window_def focus_discord_window_def)
  from focus_failure_skips_handler [of never_window "''hi''" default_settings] h
  have "send_message_advanced Bridge never_window ''hi'' default_settings =
       (False, [Attempt 1, FocusWindow False, Attempt 2, LogFocusError, FocusWindow False,
                Attempt 3, FocusWindow False, ErrorDialog 3])"
    and "send_message_advanced Python_main never_window ''hi'' default_settings =
       (False, [Attempt 1, LogError 1, Sleep 1, Attempt 2, LogError 2, Sleep 1,
                Attempt 3, LogError 3, Sleep 1, ErrorDialog 3])"
    unfolding m u by (simp_all add: f)
  with h show ?thesis
    by (simp add: pauses_and_logs_def is_pause_or_log_def)
qed

section \<open>Properties of the scheduler\<close>

lemma start_sending_view:
  "timer_view a = timer_view a' \<Longrightarrow> timer_view (start_sending a) = timer_view (start_sending a')"
  by (simp add: timer_view_def start_sending_def get_messages_def Let_def split: option.splits)

lemma wait_and_send_fire_view:
  "timer_view a = timer_view a' \<Longrightarrow>
   timer_view (wait_and_send_fire msg a) = timer_view (wait_and_send_fire msg a')"
  unfolding wait_and_send_fire_def
  by (rule start_sending_view) (simp add: timer_view_def)

lemma poll_threads_view:
  "timer_view a = timer_view a' \<Longrightarrow>
   timer_view (poll_threads now ws a) = timer_view (poll_threads now ws a')"
proof (induction ws arbitrary: a a')
  case Nil
  then show ?case by simp
next
  case (Cons w ws)
  obtain send_time msg where w: "w = (send_time, msg)" by (cases w)
  show ?case
  proof (cases "dt_less now send_time")
    case True
    have "timer_view (a\<lparr>waiting := waiting a @ [(send_time, msg)]\<rparr>) =
        timer_view (a'\<lparr>waiting := waiting a' @ [(send_time, msg)]\<rparr>)"
      using Cons.prems by (simp add: timer_view_def)
    from Cons.IH [OF this] True w show ?thesis by simp
  next
    case False
    have "timer_view (wait_and_send_fire msg a) = timer_view (wait_and_send_fire msg a')"
      by (rule wait_and_send_fire_view [OF Cons.prems])
    from Cons.IH [OF this] False w show ?thesis by simp
  qed
qed

lemma add_one_day_later:
  assumes "valid_datetime now" and "year d = year now" and "month d = month now"
    and "day d = day now" and "add_one_day d = Some d'"
  shows "dt_less now d'"
proof -
  have le: "day now \<le> days_in_month (year now) (month now)" and m: "month now \<le> 12"
    and y: "year now \<le> 9999"
    using assms(1) by (simp_all add: valid_datetime_def)
  consider (a) "day d < days_in_month (year d) (month d)"
    | (b) "\<not> day d < days_in_month (year d) (month d)" "month d < 12"
    | (c) "\<not> day d < days_in_month (year d) (month d)" "\<not> month d < 12" "year d < 9999"
    using assms(5) by (auto simp add: add_one_day_def split: if_splits)
  then show ?thesis
  proof cases
    case a
    then have "d' = d\<lparr>day := day d + 1\<rparr>" using assms(5) by (simp add: add_one_day_def)
    then show ?thesis using assms(2-4) by (simp add: dt_less_def dt_fields_def)
  next
    case b
    then have "d' = d\<lparr>month := month d + 1, day := 1\<rparr>"
      using assms(5) by (simp add: add_one_day_def)
    then show ?thesis using assms(2-4) by (simp add: dt_less_def dt_fields_def)
  next
    case c
    then have "d' = d\<lparr>year := year d + 1, month := 1, day := 1\<rparr>"
      using assms(5) by (simp add: add_one_day_def)
    then show ?thesis using assms(2-4) by (simp add: dt_less_def dt_fields_def)
  qed
qed

lemma add_one_day_time:
  "add_one_day d = Some d' \<Longrightarrow>
   hour d' = hour d \<and> minute d' = minute d \<and> second d' = second d
   \<and> microsecond d' = microsecond d"
  by (auto simp add: add_one_day_def split: if_splits)

lemma add_one_day_defined: "year d < 9999 \<Longrightarrow> \<exists>d'. add_one_day d = Some d'"
  by (simp add: add_one_day_def)

lemma lex_less_total:
  "length xs = length ys \<Longrightarrow> \<not> lex_less xs ys \<Longrightarrow> xs \<noteq> ys \<Longrightarrow> lex_less ys xs"
proof (induction xs ys rule: lex_less.induct)
  case (1 x xs y ys)
  then show ?case by auto
next
  case (2 y ys)
  then show ?case by simp
next
  case (3 xs)
  then show ?case by simp
qed

lemma dt_not_le: "\<not> dt_le a b \<Longrightarrow> dt_less b a"
  unfolding dt_le_def dt_less_def
  by (rule lex_less_total) (simp_all add: dt_fields_def)

lemma strptime_HM_empty: "strptime_HM [] = None"
  by (simp add: strptime_HM_def)

text \<open>
  The scheduler of heal_md_enhanced_bridge.py: whenever the time is well formed and a
  message is there, the stored time is after \<open>now\<close>, at the hour and minute asked for; a
  time of today that has passed is stored for the next day.
\<close>

lemma schedule_message_advanced_future:
  assumes "valid_datetime now" and "year now < 9999"
    and "strptime_HM (py_strip time_entry) = Some (h, m)"
    and "py_strip (textbox_get entry) \<noteq> []" and "py_strip (textbox_get entry) \<noteq> placeholder"
  shows "\<exists>send_time.
      schedule_message_advanced now time_entry entry scheduled =
        (Raised_AttributeError, scheduled @ [(send_time, py_strip (textbox_get entry))])
      \<and> dt_less now send_time
      \<and> hour send_time = h \<and> minute send_time = m
      \<and> second send_time = 0 \<and> microsecond send_time = 0
      \<and> (if dt_le (now\<lparr>hour := h, minute := m, second := 0, microsecond := 0\<rparr>) now
         then add_one_day (now\<lparr>hour := h, minute := m, second := 0, microsecond := 0\<rparr>) =
                Some send_time
         else send_time = now\<lparr>hour := h, minute := m, second := 0, microsecond := 0\<rparr>)"
proof -
  define today where "today = now\<lparr>hour := h, minute := m, second := 0, microsecond := 0\<rparr>"
  have ne: "py_strip time_entry \<noteq> []"
    using assms(3) strptime_HM_empty by auto
  show ?thesis
  proof (cases "dt_le today now")
    case True
    have "year today < 9999" using assms(2) by (simp add: today_def)
    then obtain d' where d': "add_one_day today = Some d'"
      using add_one_day_defined by blast
    have "dt_less now d'"
      by (rule add_one_day_later [OF assms(1) _ _ _ d']) (simp_all add: today_def)
    moreover have "hour d' = h \<and> minute d' = m \<and> second d' = 0 \<and> microsecond d' = 0"
      using add_one_day_time [OF d'] by (simp add: today_def)
    moreover have "schedule_message_advanced now time_entry entry scheduled =
        (Raised_AttributeError, scheduled @ [(d', py_strip (textbox_get entry))])"
      using ne assms(3-5) True d'
      by (simp add: schedule_message_advanced_def Let_def today_def)
    ultimately show ?thesis using True d' unfolding today_def by auto
  next
    case False
    then have "dt_less now today" by (rule dt_not_le)
    moreover have "schedule_message_advanced now time_entry entry scheduled =
        (Raised_AttributeError, scheduled @ [(today, py_strip (textbox_get entry))])"
      using ne assms(3-5) False
      by (simp add: schedule_message_advanced_def Let_def today_def)
    moreover have "hour today = h \<and> minute today = m \<and> second today = 0
        \<and> microsecond today = 0"
      by (simp add: today_def)
    ultimately show ?thesis using False unfolding today_def by auto
  qed
qed

text \<open>
  The scheduler of Working Versions/main - Copy.py on the last day of a month: a time of
  today that has passed is never stored.
\<close>

lemma schedule_message_last_day:
  assumes "valid_datetime now" and "day now = days_in_month (year now) (month now)"
    and "strptime_HM ts = Some (h, m)"
    and "dt_less (now\<lparr>hour := h, minute := m, second := 0, microsecond := 0\<rparr>) now"
    and "py_strip (textbox_get (message_entry a)) \<noteq> []"
  shows "schedule_message now (Some ts) a = a\<lparr>sw_status_var := Invalid_time_format\<rparr>"
proof -
  have ne: "ts \<noteq> []" using assms(3) strptime_HM_empty by auto
  have "replace_day (now\<lparr>hour := h, minute := m, second := 0, microsecond := 0\<rparr>)
      (day now + 1) = None"
    using assms(2) by (simp add: replace_day_def valid_datetime_def)
  then show ?thesis
    using ne assms(3-5) by (simp add: schedule_message_def Let_def)
qed


text \<open>
  C5, as the claim states it, fails: a message is scheduled at 11:00 for 12:00, the queue
  is cancelled, which empties \<open>scheduled_messages\<close>, and the timer thread is still
  waiting; at 12:00 it starts the sending of the message.
\<close>

theorem cancelled_message_still_sent:
  "scheduled_messages (cancel_scheduled_queue
      (schedule_message (at_time 2025 1 15 11 0) (Some ''12:00'') (window_with ''hello''))) = []
   \<and> waiting (cancel_scheduled_queue
      (schedule_message (at_time 2025 1 15 11 0) (Some ''12:00'') (window_with ''hello''))) =
       [(at_time 2025 1 15 12 0, ''hello'')]
   \<and> sending (poll (at_time 2025 1 15 12 0) (cancel_scheduled_queue
      (schedule_message (at_time 2025 1 15 11 0) (Some ''12:00'') (window_with ''hello'')))) =
       [([''hello''], 1)]"
  by (simp add: cancel_scheduled_queue_def schedule_message_def window_with_def at_time_def
      poll_def wait_and_send_fire_def start_sending_def get_messages_def py_strip_def
      textbox_get_def is_space_def placeholder_def py_splitlines_def is_linebreak_def
      strptime_HM_def digit_of_def dt_less_def dt_fields_def Let_def)

text \<open>
  C5, amended. \<^verbatim>\<open>cancel_queue\<close> empties the list \<open>scheduled_messages\<close> (and writes the
  status line) and nothing else: the timer threads that wait are the same, and when they
  read the clock next they fire, fill the entry and start the sending exactly as they do
  without the cancellation.
\<close>

theorem cancel_leaves_timers:
  "scheduled_messages (cancel_scheduled_queue a) = []
   \<and> timer_view (cancel_scheduled_queue a) = timer_view a
   \<and> timer_view (poll now (cancel_scheduled_queue a)) = timer_view (poll now a)"
proof -
  have v: "timer_view (cancel_scheduled_queue a) = timer_view a"
    by (simp add: timer_view_def cancel_scheduled_queue_def)
  have w: "waiting (cancel_scheduled_queue a) = waiting a"
    by (simp add: cancel_scheduled_queue_def)
  have "timer_view ((cancel_scheduled_queue a)\<lparr>waiting := []\<rparr>) = timer_view (a\<lparr>waiting := []\<rparr>)"
    by (simp add: timer_view_def cancel_scheduled_queue_def)
  then have "timer_view (poll now (cancel_scheduled_queue a)) = timer_view (poll now a)"
    unfolding poll_def w by (rule poll_threads_view)
  with v show ?thesis by (simp add: cancel_scheduled_queue_def)
qed

text \<open>
  C6. On 31 January 2025 at 12:00 a message is scheduled for 11:00, a time that has passed.
  \<^verbatim>\<open>schedule_message\<close> of Working Versions/main - Copy.py asks for day 32 of January: the
  ValueError ends in "Invalid time format.", nothing is stored and no timer is started.
  The same request a day earlier is stored for 31 January, 11:00, and
  \<^verbatim>\<open>schedule_message_advanced\<close> of heal_md_enhanced_bridge.py stores the request of
  31 January for 1 February, 11:00.
\<close>

theorem schedule_message_month_end:
  "valid_datetime (at_time 2025 1 31 12 0)
   \<and> schedule_message (at_time 2025 1 31 12 0) (Some ''11:00'') (window_with ''hello'') =
       (window_with ''hello'')\<lparr>sw_status_var := Invalid_time_format\<rparr>
   \<and> scheduled_messages
       (schedule_message (at_time 2025 1 31 12 0) (Some ''11:00'') (window_with ''hello'')) = []
   \<and> waiting
       (schedule_message (at_time 2025 1 31 12 0) (Some ''11:00'') (window_with ''hello'')) = []
   \<and> scheduled_messages
       (schedule_message (at_time 2025 1 30 12 0) (Some ''11:00'') (window_with ''hello'')) =
       [(at_time 2025 1 31 11 0, ''hello'')]
   \<and> schedule_message_advanced (at_time 2025 1 31 12 0) ''11:00'' ''hello'' [] =
       (Raised_AttributeError, [(at_time 2025 2 1 11 0, ''hello'')])"
  by (simp add: schedule_message_def schedule_message_advanced_def window_with_def at_time_def
      py_strip_def textbox_get_def is_space_def placeholder_def
      strptime_HM_def digit_of_def dt_less_def dt_le_def dt_fields_def replace_day_def
      add_one_day_def valid_datetime_def days_in_month_def is_leap_def Let_def)

end
